theory Spec2Isabelle
  imports Complex_Main "HOL-Library.AList"
begin

section \<open>The OPC UA adapter of lewis (src/lewis/adapters/opcua.py)\<close>

text \<open>
  The adapter exposes a simulated device over OPC UA. This theory embeds the class
  \<open>OPCUAAdapter\<close>: the type classifier \<open>_get_ua_data_type\<close>, the address space
  builders \<open>_add_properties\<close> and \<open>_add_methods\<close>, the lifecycle operations
  \<open>start_server\<close> and \<open>stop_server\<close>, the call wrapper \<open>method_wrapper\<close> and the
  polling loop \<open>_update_variables\<close>.
\<close>

subsection \<open>Python values\<close>

text \<open>
  The runtime values a device attribute can hold. Only the runtime type of a value is
  inspected by the adapter, never the payload of a float, so the payload is a real number.
  \<open>PObj\<close> stands for a value of any other type.
\<close>

datatype pyval =
    PNone
  | PBool bool
  | PInt int
  | PFloat real
  | PStr string
  | PList "pyval list"
  | PObj string

text \<open>
  \<open>isinstance(value, T)\<close> for the four types the classifier asks about. In Python
  \<open>bool\<close> is a subclass of \<open>int\<close>, so a boolean is an instance of \<open>int\<close> as well.
\<close>

fun isinstance_bool :: "pyval \<Rightarrow> bool" where
  "isinstance_bool (PBool b) = True"
| "isinstance_bool v = False"

fun isinstance_int :: "pyval \<Rightarrow> bool" where
  "isinstance_int (PBool b) = True"
| "isinstance_int (PInt i) = True"
| "isinstance_int v = False"

fun isinstance_float :: "pyval \<Rightarrow> bool" where
  "isinstance_float (PFloat r) = True"
| "isinstance_float v = False"

fun isinstance_str :: "pyval \<Rightarrow> bool" where
  "isinstance_str (PStr s) = True"
| "isinstance_str v = False"

fun isinstance_list :: "pyval \<Rightarrow> bool" where
  "isinstance_list (PList xs) = True"
| "isinstance_list v = False"

subsection \<open>The type classifier\<close>

text \<open>The members of \<open>ua.VariantType\<close> the classifier returns.\<close>

datatype variant_type = Boolean | Int64 | Double | String | Variant

text \<open>
  Line 285 of the source reads
  \<^verbatim>\<open>all(isinstance(x, float) for x in value or isinstance(x, int) for x in value)\<close>.
  Python parses this as one generator expression with two \<open>for\<close> clauses: the first
  iterates over \<open>value or isinstance(x, int)\<close>, the second over \<open>value\<close>, and the
  element produced is \<open>isinstance(x, float)\<close> with \<open>x\<close> bound by the second clause.
  The line is reached only when some element is not an \<open>int\<close>, so \<open>value\<close> is not
  empty there, \<open>value or ...\<close> is \<open>value\<close> itself, and the right operand of \<open>or\<close>
  is never evaluated.
\<close>

definition float_or_int_generator :: "pyval list \<Rightarrow> bool list" where
  "float_or_int_generator value =
     concat (map (\<lambda>x. map (\<lambda>x. isinstance_float x) value) value)"

definition classify_list :: "pyval list \<Rightarrow> variant_type" where
  "classify_list value =
     (if list_all (\<lambda>x. isinstance_bool x) value then Boolean
      else if list_all (\<lambda>x. isinstance_int x) value then Int64
      else if list_all (\<lambda>b. b) (float_or_int_generator value) then Double
      else Variant)"

definition get_ua_data_type :: "pyval \<Rightarrow> variant_type" where
  "get_ua_data_type value =
     (if isinstance_bool value then Boolean
      else if isinstance_int value then Int64
      else if isinstance_float value then Double
      else if isinstance_str value then String
      else if isinstance_list value then (case value of PList xs \<Rightarrow> classify_list xs | _ \<Rightarrow> Variant)
      else Variant)"

subsection \<open>Properties of the classifier\<close>

lemma classify_list_empty: "classify_list [] = Boolean"
  by (simp add: classify_list_def)

lemma float_or_int_generator_all:
  "value \<noteq> [] \<Longrightarrow>
   list_all (\<lambda>b. b) (float_or_int_generator value) = list_all isinstance_float value"
  by (cases "value") (auto simp: float_or_int_generator_def list_all_iff)

text \<open>
  C6. A boolean value is classified \<open>Boolean\<close> and never \<open>Int64\<close>, although it
  passes the integral test too: the boolean test comes first.
\<close>

theorem C6_boolean_before_integral:
  "get_ua_data_type (PBool b) = Boolean \<and> get_ua_data_type (PBool b) \<noteq> Int64
   \<and> isinstance_int (PBool b)"
  by (simp add: get_ua_data_type_def)

text \<open>
  C2. The specification says that a list is classified \<open>Boolean\<close> when every element
  is a boolean, otherwise \<open>Int64\<close> when every element is integral, otherwise
  \<open>Double\<close> when every element is numeric, as in \<open>[1, 2.5]\<close>, and otherwise
  \<open>Variant\<close>. The list \<open>[1, 2.5]\<close> is not all boolean and not all integral, and
  the generator of line 285 asks of every element whether it is a float, so the code
  classifies it \<open>Variant\<close>, not \<open>Double\<close>. The other three examples of the
  specification come out as stated.
\<close>

theorem C2_mixed_numeric_list_is_variant:
  "get_ua_data_type (PList [PInt 1, PFloat 2.5]) = Variant
   \<and> get_ua_data_type (PList [PInt 1, PInt 2, PInt 3]) = Int64
   \<and> get_ua_data_type (PList [PBool True, PBool False]) = Boolean
   \<and> get_ua_data_type (PList [PStr ''a'', PStr ''b'']) = Variant"
  by (simp add: get_ua_data_type_def classify_list_def float_or_int_generator_def)

subsection \<open>Configuration, errors and the device\<close>

text \<open>
  \<open>self._options\<close>: the named tuple the base class builds from \<open>default_options\<close>
  and the caller's overrides. A certificate or key path is \<open>None\<close> or a string.
\<close>

record adapter_options =
  port :: int
  server_name :: string
  uri :: string
  update_interval :: real
  exclude_properties :: "string list"
  read_only_properties :: "string list"
  security_mode :: string
  security_policy :: string
  certificate :: "string option"
  private_key :: "string option"

definition default_options :: adapter_options where
  "default_options =
     \<lparr>port = 4840, server_name = ''Lewis OPCUA Server'', uri = ''urn:lewis:opcua'',
      update_interval = 0.1, exclude_properties = [], read_only_properties = [],
      security_mode = ''None'', security_policy = ''None'',
      certificate = None, private_key = None\<rparr>"

text \<open>The exceptions of the model; the string is the text \<open>str(e)\<close> gives.\<close>

datatype error =
    AttributeError string
  | TypeError string
  | ValueError string
  | NameError string
  | UaError string

fun str_error :: "error \<Rightarrow> string" where
  "str_error (AttributeError s) = s"
| "str_error (TypeError s) = s"
| "str_error (ValueError s) = s"
| "str_error (NameError s) = s"
| "str_error (UaError s) = s"

text \<open>
  An attribute of the device interface is a data value or a callable. The adapter inspects
  a callable in two ways: \<open>inspect.signature\<close> gives its parameter names or raises, and
  calling it with positional arguments gives a result or raises.
\<close>

datatype attr =
    Data pyval
  | Callable "error + string list" "pyval list \<Rightarrow> error + pyval"

text \<open>
  The device interface as the adapter sees it: the names of \<open>dir(self.interface)\<close>, in
  the order \<open>dir\<close> returns them, each with the value \<open>getattr(self.interface, name)\<close>.
\<close>

type_synonym device = "(string \<times> attr) list"

fun callable :: "attr \<Rightarrow> bool" where
  "callable (Data v) = False"
| "callable (Callable sg f) = True"

text \<open>The value \<open>getattr\<close> returns; a callable is an object of no classified type.\<close>

fun attr_value :: "attr \<Rightarrow> pyval" where
  "attr_value (Data v) = v"
| "attr_value (Callable sg f) = PObj ''method''"

fun signature :: "attr \<Rightarrow> error + string list" where
  "signature (Data v) = Inl (TypeError ''is not a callable object'')"
| "signature (Callable sg f) = sg"

fun startswith_underscore :: "string \<Rightarrow> bool" where
  "startswith_underscore [] = False"
| "startswith_underscore (c # cs) = (c = CHR ''_'')"

subsection \<open>The protocol engine and the adapter's state\<close>

text \<open>The pieces of an f-string: literal text and formatted numbers.\<close>

datatype piece = Text string | Num int

type_synonym fstring = "piece list"

text \<open>
  \<open>ua.Argument(name=..., data_type=ua.NodeId(ua.ObjectIds.Variant), value_rank=-1,
  array_dimensions=[], description="")\<close>
\<close>

record argument =
  arg_name :: string
  arg_data_type :: variant_type
  value_rank :: int
  array_dimensions :: "nat list"
  description :: string

definition variant_argument :: "string \<Rightarrow> argument" where
  "variant_argument n =
     \<lparr>arg_name = n, arg_data_type = Variant, value_rank = - 1, array_dimensions = [],
      description = []\<rparr>"

text \<open>
  A variable node as \<open>add_variable\<close> creates it. \<open>set_value_callback\<close> holds the
  property name that the closure made by \<open>make_callback\<close> has bound.
\<close>

record variable_node =
  var_idx :: nat
  var_name :: string
  var_value :: pyval
  var_type :: variant_type
  var_writeable :: bool
  set_value_callback :: "string option"

record method_node =
  meth_idx :: nat
  meth_name :: string
  meth_inputs :: "argument list"
  meth_outputs :: "argument list"

text \<open>
  The protocol engine (asyncua) is outside the repository. A server is modelled by what the
  adapter tells it. The calls the builder makes on the engine can raise; what they raise is
  a parameter of the model (the record \<open>engine\<close> below). The calls of
  \<open>start_server\<close> and \<open>stop_server\<close> on the server object itself (its
  construction, endpoint, name, certificate, key, policy, namespace, \<open>Device\<close> object,
  start and stop) are modelled as returning.

  Every \<open>method_wrapper\<close> that \<open>_add_methods\<close> registers is a closure over the loop
  variable \<open>method_name\<close> of that call of \<open>_add_methods\<close>: they all share the one
  variable and read it when they are invoked. \<open>wrapper_method_name\<close> is that variable.
\<close>

record server =
  endpoint :: fstring
  srv_name :: string
  loaded_certificate :: "string option"
  loaded_private_key :: "string option"
  security_policies :: "string list"
  namespaces :: "string list"
  objects :: "(nat \<times> string) list"
  variables :: "(nat \<times> string) list"
  methods :: "method_node list"
  wrapper_method_name :: "string option"
  started :: bool

definition new_server :: server where
  "new_server =
     \<lparr>endpoint = [], srv_name = [], loaded_certificate = None, loaded_private_key = None,
      security_policies = [], namespaces = [], objects = [], variables = [], methods = [],
      wrapper_method_name = None, started = False\<rparr>"

text \<open>What the adapter does to the outside: the device lock, the device, the nodes, the log.\<close>

datatype event =
    Acquire
  | Release
  | Call string "pyval list"
  | SetAttr string pyval
  | SetValue string pyval
  | Wait real
  | ThreadStart
  | ThreadJoin real
  | ServerStop
  | LogInfo fstring
  | LogWarning string

datatype thread = Thread string bool

text \<open>
  The fields \<open>__init__\<close> assigns, and the trace of events. A dictionary is an association
  list: \<open>AList.update\<close> overwrites the value of a present key in place and appends a new
  key at the end, as a Python \<open>dict\<close> does.
\<close>

record adapter =
  server :: "server option"
  running :: bool
  nodes :: "(string \<times> variable_node) list"
  update_thread :: "thread option"
  stop_event :: bool
  property_values :: "(string \<times> pyval) list"
  trace :: "event list"

definition init :: adapter where
  "init = \<lparr>server = None, running = False, nodes = [], update_thread = None,
            stop_event = False, property_values = [], trace = []\<rparr>"

text \<open>
  What the adapter gets from outside its own class body. \<open>options\<close> is
  \<open>self._options\<close> and \<open>interface\<close> is \<open>self.interface\<close>, \<open>None\<close> when no device
  is bound.

  The class assigns no attribute \<open>_option\<close> (lines 109 and 121 read \<open>self._option\<close>,
  every other place \<open>self._options\<close>), and the \<open>def\<close> of \<open>_update_variables\<close>
  stands inside the body of \<open>stop_server\<close>, after its last statement, so it is a local
  function of \<open>stop_server\<close> and not an attribute of the class. Whether
  \<open>self._option\<close> and \<open>self._update_variables\<close> resolve is therefore decided by
  the base class \<open>Adapter\<close> alone, which is not among the sources: \<open>attr_option\<close> is
  the value of \<open>self._option\<close>, \<open>None\<close> when the attribute does not exist, and
  \<open>attr_update_variables\<close> says whether \<open>self._update_variables\<close> exists.

  \<open>py_ne\<close> is Python's \<open>!=\<close> on two values, and \<open>set_value_error\<close> the exception
  \<open>node.set_value\<close> raises for a node name and value, if any.

  The record \<open>engine\<close> says what the engine calls of the builder raise, \<open>None\<close>
  when a call returns: \<open>add_variable_error\<close> for
  \<open>device_node.add_variable(idx, property, value, data_type)\<close>,
  \<open>set_writeable_error\<close> for \<open>var.set_writeable(writeable)\<close>,
  \<open>argument_error\<close> for the construction
  \<open>ua.Argument(name=..., data_type=ua.NodeId(ua.ObjectIds.Variant), ...)\<close> of the
  argument with the given name, and \<open>add_method_error\<close> for
  \<open>device_node.add_method(idx, method_name, method_wrapper, inputs, outputs)\<close>.
\<close>

record engine =
  add_variable_error :: "nat \<Rightarrow> string \<Rightarrow> pyval \<Rightarrow> variant_type \<Rightarrow> error option"
  set_writeable_error :: "string \<Rightarrow> bool \<Rightarrow> error option"
  argument_error :: "string \<Rightarrow> error option"
  add_method_error :: "nat \<Rightarrow> string \<Rightarrow> argument list \<Rightarrow> argument list \<Rightarrow> error option"

record env =
  options :: adapter_options
  interface :: "device option"
  attr_option :: "adapter_options option"
  attr_update_variables :: bool
  py_ne :: "pyval \<Rightarrow> pyval \<Rightarrow> bool"
  set_value_error :: "string \<Rightarrow> pyval \<Rightarrow> error option"
  engine :: engine

definition upd_server :: "(server \<Rightarrow> server) \<Rightarrow> adapter \<Rightarrow> adapter" where
  "upd_server f a = a\<lparr>server := map_option f (server a)\<rparr>"

definition emit :: "event list \<Rightarrow> adapter \<Rightarrow> adapter" where
  "emit evs a = a\<lparr>trace := trace a @ evs\<rparr>"

text \<open>\<open>getattr(self.interface, name)\<close> and \<open>hasattr(self.interface, name)\<close>.\<close>

definition getattr :: "device option \<Rightarrow> string \<Rightarrow> error + attr" where
  "getattr iface n =
     (case iface of
        None \<Rightarrow> Inl (AttributeError n)
      | Some dev \<Rightarrow> (case map_of dev n of None \<Rightarrow> Inl (AttributeError n) | Some av \<Rightarrow> Inr av))"

definition hasattr :: "device option \<Rightarrow> string \<Rightarrow> bool" where
  "hasattr iface n = (case getattr iface n of Inl e \<Rightarrow> False | Inr av \<Rightarrow> True)"

subsection \<open>The address space builder\<close>

text \<open>
  One iteration of the loop of \<open>_add_properties\<close> (lines 156 to 198). The calls of
  \<open>add_variable\<close> and \<open>set_writeable\<close> stand in no \<open>try\<close> block: an exception
  of either leaves the loop and the function, before the node and the value are stored in
  the two dictionaries. The result is the exception, if any, and the state.
\<close>

definition add_property ::
  "engine \<Rightarrow> adapter_options \<Rightarrow> nat \<Rightarrow> adapter \<Rightarrow> string \<times> attr \<Rightarrow> error option \<times> adapter" where
  "add_property eng opts idx a pa =
     (case pa of (property, av) \<Rightarrow>
        if property \<in> set (exclude_properties opts) \<or> startswith_underscore property
           \<or> callable av
        then (None, a)
        else
          let value = attr_value av;
              writeable = (property \<notin> set (read_only_properties opts));
              data_type = get_ua_data_type value
          in case add_variable_error eng idx property value data_type of
               Some err \<Rightarrow> (Some err, a)
             | None \<Rightarrow>
                 let a1 = upd_server (\<lambda>s. s\<lparr>variables := variables s @ [(idx, property)]\<rparr>) a
                 in case set_writeable_error eng property writeable of
                      Some err \<Rightarrow> (Some err, a1)
                    | None \<Rightarrow>
                        let var = \<lparr>var_idx = idx, var_name = property, var_value = value,
                                   var_type = data_type, var_writeable = writeable,
                                   set_value_callback =
                                     (if writeable then Some property else None)\<rparr>
                        in (None,
                            a1\<lparr>nodes := AList.update property var (nodes a1),
                               property_values :=
                                 AList.update property value (property_values a1)\<rparr>))"

text \<open>The loop of \<open>_add_properties\<close>: it ends with the first exception.\<close>

fun add_properties ::
  "engine \<Rightarrow> adapter_options \<Rightarrow> nat \<Rightarrow> device \<Rightarrow> adapter \<Rightarrow> error option \<times> adapter" where
  "add_properties eng opts idx [] a = (None, a)"
| "add_properties eng opts idx (pa # dev) a =
     (case add_property eng opts idx a pa of
        (Some err, a') \<Rightarrow> (Some err, a')
      | (None, a') \<Rightarrow> add_properties eng opts idx dev a')"

text \<open>
  The \<open>try\<close> block of \<open>_add_methods\<close> (lines 219 to 259): the signature is read, one
  argument is constructed for each parameter that is not \<open>self\<close>, then the argument
  \<open>Result\<close>, and the method node is added. The first exception ends the block; its
  result is that exception or the node added.
\<close>

fun make_arguments :: "engine \<Rightarrow> string list \<Rightarrow> error + argument list" where
  "make_arguments eng [] = Inr []"
| "make_arguments eng (param_name # rest) =
     (case argument_error eng param_name of
        Some err \<Rightarrow> Inl err
      | None \<Rightarrow>
          (case make_arguments eng rest of
             Inl err \<Rightarrow> Inl err
           | Inr arguments \<Rightarrow> Inr (variant_argument param_name # arguments)))"

definition try_add_method :: "engine \<Rightarrow> nat \<Rightarrow> string \<Rightarrow> attr \<Rightarrow> error + method_node" where
  "try_add_method eng idx method_name av =
     (case signature av of
        Inl err \<Rightarrow> Inl err
      | Inr parameters \<Rightarrow>
          (case make_arguments eng (filter (\<lambda>param_name. param_name \<noteq> ''self'') parameters) of
             Inl err \<Rightarrow> Inl err
           | Inr inputs \<Rightarrow>
               (case make_arguments eng [''Result''] of
                  Inl err \<Rightarrow> Inl err
                | Inr outputs \<Rightarrow>
                    (case add_method_error eng idx method_name inputs outputs of
                       Some err \<Rightarrow> Inl err
                     | None \<Rightarrow>
                         Inr \<lparr>meth_idx = idx, meth_name = method_name, meth_inputs = inputs,
                              meth_outputs = outputs\<rparr>))))"

text \<open>
  One iteration of the loop of \<open>_add_methods\<close> (lines 209 to 261). The \<open>for\<close>
  statement assigns the loop variable first, whatever the iteration then does. The
  \<open>except\<close> clause turns every exception of the \<open>try\<close> block into a warning, and the
  loop goes on.
\<close>

definition failed_to_add :: "string \<Rightarrow> error \<Rightarrow> event" where
  "failed_to_add method_name e =
     LogWarning (''Failed to add method '' @ method_name @ '': '' @ str_error e)"

definition add_method :: "engine \<Rightarrow> nat \<Rightarrow> adapter \<Rightarrow> string \<times> attr \<Rightarrow> adapter" where
  "add_method eng idx a0 ma =
     (case ma of (method_name, av) \<Rightarrow>
        let a = upd_server (\<lambda>s. s\<lparr>wrapper_method_name := Some method_name\<rparr>) a0 in
        if \<not> callable av \<or> startswith_underscore method_name then a
        else
          (case try_add_method eng idx method_name av of
             Inl e \<Rightarrow> emit [failed_to_add method_name e] a
           | Inr node \<Rightarrow> upd_server (\<lambda>s. s\<lparr>methods := methods s @ [node]\<rparr>) a))"

definition add_methods :: "engine \<Rightarrow> nat \<Rightarrow> device \<Rightarrow> adapter \<Rightarrow> adapter" where
  "add_methods eng idx dev a = foldl (add_method eng idx) a dev"

text \<open>
  Lines 130 and 131: \<open>_add_properties\<close>, then \<open>_add_methods\<close> unless the first
  raised.
\<close>

definition build_address_space ::
  "engine \<Rightarrow> adapter_options \<Rightarrow> nat \<Rightarrow> device \<Rightarrow> adapter \<Rightarrow> error option \<times> adapter" where
  "build_address_space eng opts idx dev a =
     (case add_properties eng opts idx dev a of
        (Some err, a') \<Rightarrow> (Some err, a')
      | (None, a') \<Rightarrow> (None, add_methods eng idx dev a'))"

subsection \<open>The dispatcher\<close>

text \<open>
  \<open>write_callback\<close> as \<open>make_callback(property_name)\<close> returns it. The assignment
  changes the device, which is outside the adapter; the adapter's part is the trace.
\<close>

definition write_callback :: "string \<Rightarrow> pyval \<Rightarrow> adapter \<Rightarrow> bool \<times> adapter" where
  "write_callback property_name val a =
     (True, emit [Acquire, SetAttr property_name val, Release] a)"

text \<open>
  \<open>method_wrapper\<close> (lines 248 to 251), given the value its free variable
  \<open>method_name\<close> has when it runs. The \<open>with\<close> statement releases the lock also
  when the body raises.
\<close>

definition method_wrapper ::
  "device option \<Rightarrow> string \<Rightarrow> pyval list \<Rightarrow> event list \<times> (error + pyval list)" where
  "method_wrapper iface method_name args =
     (case getattr iface method_name of
        Inl e \<Rightarrow> ([Acquire, Release], Inl e)
      | Inr (Data v) \<Rightarrow> ([Acquire, Release], Inl (TypeError ''object is not callable''))
      | Inr (Callable sg f) \<Rightarrow>
          (case f args of
             Inl e \<Rightarrow> ([Acquire, Call method_name args, Release], Inl e)
           | Inr result \<Rightarrow>
               ([Acquire, Call method_name args, Release],
                Inr (if result \<noteq> PNone then [result] else []))))"

text \<open>
  The transport invoking the method node named \<open>m\<close>: it runs the wrapper registered
  there. The wrapper reads the shared variable \<open>method_name\<close> at this moment.
\<close>

definition call_method ::
  "env \<Rightarrow> string \<Rightarrow> pyval list \<Rightarrow> adapter \<Rightarrow> (error + pyval list) \<times> adapter" where
  "call_method e m args a =
     (case server a of
        None \<Rightarrow> (Inl (UaError ''BadServerHalted''), a)
      | Some s \<Rightarrow>
          if m \<in> set (map meth_name (methods s)) then
            (case wrapper_method_name s of
               None \<Rightarrow> (Inl (NameError ''method_name''), a)
             | Some method_name \<Rightarrow>
                 (case method_wrapper (interface e) method_name args of
                    (evs, r) \<Rightarrow> (r, emit evs a)))
          else (Inl (UaError ''BadNodeIdUnknown''), a))"

subsection \<open>The lifecycle\<close>

text \<open>
  \<open>start_server\<close> (lines 97 to 145). An exception leaves the fields as they are at the
  statement that raised, so the result is the exception, if any, and the state. An
  exception of the builder leaves \<open>start_server\<close> before \<open>_running\<close> is set.
  The operands of the \<open>and\<close> chain of lines 109 to 112 are evaluated left to right, and
  \<open>self._option\<close> is the first thing evaluated.
\<close>

definition truthy :: "string option \<Rightarrow> bool" where
  "truthy p = (case p of None \<Rightarrow> False | Some s \<Rightarrow> s \<noteq> [])"

definition start_server :: "env \<Rightarrow> adapter \<Rightarrow> error option \<times> adapter" where
  "start_server e a =
     (if running a then (None, a)
      else
        let endpoint = [Text ''opc.tcp://0.0.0.0:'', Num (port (options e))];
            a1 = a\<lparr>server := Some (new_server\<lparr>endpoint := endpoint,
                                                srv_name := server_name (options e)\<rparr>)\<rparr>
        in case attr_option e of
             None \<Rightarrow> (Some (AttributeError ''_option''), a1)
           | Some opt \<Rightarrow>
               let a2 = (if security_mode opt \<noteq> ''None''
                            \<and> security_policy (options e) \<noteq> ''None''
                            \<and> truthy (certificate (options e))
                            \<and> truthy (private_key (options e))
                         then upd_server (\<lambda>s. s\<lparr>
                                loaded_certificate := certificate (options e),
                                loaded_private_key := private_key (options e),
                                security_policies :=
                                  [security_policy (options e) @ '', '' @ security_mode (options e)]\<rparr>) a1
                         else a1);
                   idx = (case server a2 of None \<Rightarrow> 0 | Some s \<Rightarrow> length (namespaces s));
                   a3 = upd_server (\<lambda>s. s\<lparr>namespaces := namespaces s @ [uri opt]\<rparr>) a2;
                   a4 = upd_server (\<lambda>s. s\<lparr>objects := objects s @ [(idx, ''Device'')]\<rparr>) a3
               in case (case interface e of
                          None \<Rightarrow> (None, a4)
                        | Some dev \<Rightarrow> build_address_space (engine e) (options e) idx dev a4) of
                    (Some err, a5) \<Rightarrow> (Some err, a5)
                  | (None, a5) \<Rightarrow>
                      let a6 = (upd_server (\<lambda>s. s\<lparr>started := True\<rparr>) a5)\<lparr>running := True\<rparr>;
                          a7 = a6\<lparr>stop_event := False\<rparr>
                      in if \<not> attr_update_variables e
                         then (Some (AttributeError ''_update_variables''), a7)
                         else (None,
                               emit [ThreadStart,
                                     LogInfo (Text ''OPCUA Server started on '' # endpoint)]
                                 (a7\<lparr>update_thread :=
                                       Some (Thread ''_update_variables'' True)\<rparr>)))"

text \<open>
  \<open>stop_server\<close> (lines 301 to 319). The three \<open>def\<close> statements that follow
  \<open>self.log.info\<close> in its body only bind local names.
\<close>

definition stop_server :: "adapter \<Rightarrow> adapter" where
  "stop_server a =
     (if \<not> running a then a
      else
        let a1 = a\<lparr>stop_event := True\<rparr>;
            a2 = (if update_thread a1 \<noteq> None
                  then (emit [ThreadJoin 2.0] a1)\<lparr>update_thread := None\<rparr> else a1);
            a3 = (if server a2 \<noteq> None
                  then (emit [ServerStop] a2)\<lparr>server := None\<rparr> else a2)
        in emit [LogInfo [Text ''OPCUA server stopped'']]
             (a3\<lparr>running := False, nodes := [], property_values := []\<rparr>))"

subsection \<open>The polling loop\<close>

text \<open>
  The body of the \<open>for\<close> loop of \<open>_update_variables\<close> (lines 356 to 366) for one
  item of \<open>self._nodes.items()\<close>. \<open>node.set_value\<close> changes the node that the
  dictionary refers to; the keys of the dictionary stay as they are.
\<close>

definition update_variable :: "env \<Rightarrow> adapter \<Rightarrow> string \<times> variable_node \<Rightarrow> adapter" where
  "update_variable e a pn =
     (case pn of (property, node) \<Rightarrow>
        if hasattr (interface e) property then
          (case getattr (interface e) property of
             Inl err \<Rightarrow> a
           | Inr av \<Rightarrow>
               let current_value = attr_value av in
               if (case map_of (property_values a) property of
                     None \<Rightarrow> True
                   | Some known \<Rightarrow> py_ne e known current_value)
               then
                 (case set_value_error e property current_value of
                    None \<Rightarrow>
                      (emit [SetValue property current_value] a)
                        \<lparr>nodes := AList.update property (node\<lparr>var_value := current_value\<rparr>) (nodes a),
                         property_values := AList.update property current_value (property_values a)\<rparr>
                  | Some err \<Rightarrow>
                      emit [LogWarning (''Failed to update node '' @ property @ '': '' @ str_error err)] a)
               else a)
        else a)"

text \<open>
  One pass through the body of the \<open>while\<close> loop (lines 355 to 368). The call of
  \<open>self._stop_event.wait\<close> is indented as far as the \<open>for\<close> statement, so it
  belongs to the \<open>with\<close> block: the lock is released after the wait returns.
\<close>

definition poll_cycle :: "env \<Rightarrow> adapter \<Rightarrow> adapter" where
  "poll_cycle e a =
     (let a1 = emit [Acquire] a;
          a2 = foldl (update_variable e) a1 (nodes a1);
          a3 = emit [Wait (update_interval (options e))] a2
      in emit [Release] a3)"

text \<open>
  The \<open>while\<close> loop. Each cycle sees the device as it then is, so the loop takes one
  environment for each cycle it may run; it ends when the condition fails or when the
  environments are used up.
\<close>

fun update_variables :: "env list \<Rightarrow> adapter \<Rightarrow> adapter" where
  "update_variables [] a = a"
| "update_variables (e # es) a =
     (if \<not> stop_event a \<and> running a \<and> interface e \<noteq> None
      then update_variables es (poll_cycle e a)
      else a)"

text \<open>
  The states the adapter can get into: a new adapter, and what the operations make of a
  state that can be reached. Each operation runs as a whole.
\<close>

inductive reachable :: "adapter \<Rightarrow> bool" where
  reach_init: "reachable init"
| reach_start: "reachable a \<Longrightarrow> reachable (snd (start_server e a))"
| reach_stop: "reachable a \<Longrightarrow> reachable (stop_server a)"
| reach_poll: "reachable a \<Longrightarrow> \<not> stop_event a \<Longrightarrow> running a \<Longrightarrow> interface e \<noteq> None
               \<Longrightarrow> reachable (poll_cycle e a)"
| reach_call: "reachable a \<Longrightarrow> reachable (snd (call_method e m args a))"
| reach_write: "reachable a \<Longrightarrow> reachable (snd (write_callback p v a))"

subsection \<open>What the builder and the lifecycle leave behind\<close>

text \<open>
  The names of the method nodes a server holds; whether \<open>inspect.signature\<close> succeeds
  on an attribute; whether the \<open>try\<close> block of \<open>_add_methods\<close> ends without an
  exception for an attribute, so that its node is registered; the two tests by which the
  builder loops select attributes; and the agreement of the keys of the two dictionaries.
\<close>

definition method_nodes :: "adapter \<Rightarrow> string list" where
  "method_nodes a = (case server a of None \<Rightarrow> [] | Some s \<Rightarrow> map meth_name (methods s))"

definition introspectable :: "attr \<Rightarrow> bool" where
  "introspectable av = (case signature av of Inl e \<Rightarrow> False | Inr parameters \<Rightarrow> True)"

definition registers :: "engine \<Rightarrow> nat \<Rightarrow> string \<times> attr \<Rightarrow> bool" where
  "registers eng idx ma =
     (case try_add_method eng idx (fst ma) (snd ma) of Inl e \<Rightarrow> False | Inr node \<Rightarrow> True)"

definition exposed_property :: "adapter_options \<Rightarrow> string \<times> attr \<Rightarrow> bool" where
  "exposed_property opts pa =
     (fst pa \<notin> set (exclude_properties opts) \<and> \<not> startswith_underscore (fst pa)
      \<and> \<not> callable (snd pa))"

definition public_callable :: "string \<times> attr \<Rightarrow> bool" where
  "public_callable ma = (callable (snd ma) \<and> \<not> startswith_underscore (fst ma))"

definition keys_agree :: "adapter \<Rightarrow> bool" where
  "keys_agree a = (fst ` set (nodes a) = fst ` set (property_values a))"

lemma upd_server_fields [simp]:
  "running (upd_server f a) = running a"
  "nodes (upd_server f a) = nodes a"
  "property_values (upd_server f a) = property_values a"
  "trace (upd_server f a) = trace a"
  "stop_event (upd_server f a) = stop_event a"
  "update_thread (upd_server f a) = update_thread a"
  "server (upd_server f a) = map_option f (server a)"
  by (simp_all add: upd_server_def)

lemma emit_fields [simp]:
  "running (emit evs a) = running a"
  "nodes (emit evs a) = nodes a"
  "property_values (emit evs a) = property_values a"
  "trace (emit evs a) = trace a @ evs"
  "stop_event (emit evs a) = stop_event a"
  "update_thread (emit evs a) = update_thread a"
  "server (emit evs a) = server a"
  by (simp_all add: emit_def)

lemma add_property_skips:
  "\<not> exposed_property opts pa \<Longrightarrow> add_property eng opts idx a pa = (None, a)"
  by (cases pa) (auto simp: add_property_def exposed_property_def)

lemma add_property_nodes:
  "fst ` set (nodes (snd (add_property eng opts idx a pa))) =
     fst ` set (nodes a) \<union>
     (if exposed_property opts pa \<and> fst (add_property eng opts idx a pa) = None
      then {fst pa} else {})"
  by (cases pa)
     (auto simp: add_property_def exposed_property_def Let_def dom_update split: option.split)

lemma add_property_values:
  "fst ` set (property_values (snd (add_property eng opts idx a pa))) =
     fst ` set (property_values a) \<union>
     (if exposed_property opts pa \<and> fst (add_property eng opts idx a pa) = None
      then {fst pa} else {})"
  by (cases pa)
     (auto simp: add_property_def exposed_property_def Let_def dom_update split: option.split)

lemma add_property_other [simp]:
  "running (snd (add_property eng opts idx a pa)) = running a"
  "trace (snd (add_property eng opts idx a pa)) = trace a"
  "stop_event (snd (add_property eng opts idx a pa)) = stop_event a"
  "update_thread (snd (add_property eng opts idx a pa)) = update_thread a"
  by (cases pa; simp add: add_property_def Let_def split: option.split)+

lemma add_property_server:
  "(server (snd (add_property eng opts idx a pa)) = None) = (server a = None)"
  by (cases pa) (simp add: add_property_def Let_def split: option.split)

lemma add_property_methods [simp]:
  "method_nodes (snd (add_property eng opts idx a pa)) = method_nodes a"
  by (cases pa; cases "server a";
      simp add: add_property_def Let_def method_nodes_def split: option.split)

lemma add_properties_step:
  "add_properties eng opts idx (pa # dev) a =
     (if fst (add_property eng opts idx a pa) = None
      then add_properties eng opts idx dev (snd (add_property eng opts idx a pa))
      else add_property eng opts idx a pa)"
  by (cases "add_property eng opts idx a pa") (auto split: option.split)

lemma add_properties_other [simp]:
  "running (snd (add_properties eng opts idx dev a)) = running a"
  "trace (snd (add_properties eng opts idx dev a)) = trace a"
  "stop_event (snd (add_properties eng opts idx dev a)) = stop_event a"
  "update_thread (snd (add_properties eng opts idx dev a)) = update_thread a"
  "method_nodes (snd (add_properties eng opts idx dev a)) = method_nodes a"
  by (induction dev arbitrary: a; simp add: add_properties_step del: add_properties.simps(2))+

lemma add_properties_server:
  "(server (snd (add_properties eng opts idx dev a)) = None) = (server a = None)"
  by (induction dev arbitrary: a)
     (simp_all add: add_properties_step add_property_server del: add_properties.simps(2))

lemma add_properties_nodes_subset:
  "fst ` set (nodes (snd (add_properties eng opts idx dev a))) \<subseteq>
     fst ` set (nodes a) \<union> fst ` {pa \<in> set dev. exposed_property opts pa}"
proof (induction dev arbitrary: a)
  case Nil
  show ?case by simp
next
  case (Cons pa dev)
  let ?b = "snd (add_property eng opts idx a pa)"
  have step: "fst ` set (nodes ?b) \<subseteq>
          fst ` set (nodes a) \<union> fst ` {qa \<in> set (pa # dev). exposed_property opts qa}"
    by (auto simp: add_property_nodes split: if_splits)
  show ?case
  proof (cases "fst (add_property eng opts idx a pa) = None")
    case True
    from Cons.IH [of ?b] step show ?thesis
      by (simp add: add_properties_step True del: add_properties.simps(2)) blast
  next
    case False
    have "add_properties eng opts idx (pa # dev) a = add_property eng opts idx a pa"
      unfolding add_properties_step using False by (rule if_not_P)
    with step show ?thesis by simp
  qed
qed

lemma add_properties_nodes_complete:
  "fst (add_properties eng opts idx dev a) = None \<Longrightarrow>
   fst ` set (nodes (snd (add_properties eng opts idx dev a))) =
     fst ` set (nodes a) \<union> fst ` {pa \<in> set dev. exposed_property opts pa}"
proof (induction dev arbitrary: a)
  case Nil
  show ?case by simp
next
  case (Cons pa dev)
  let ?b = "snd (add_property eng opts idx a pa)"
  from Cons.prems have ok: "fst (add_property eng opts idx a pa) = None"
    by (simp add: add_properties_step del: add_properties.simps(2) split: if_splits)
  with Cons.prems have rest: "fst (add_properties eng opts idx dev ?b) = None"
    by (simp add: add_properties_step del: add_properties.simps(2))
  have "fst ` set (nodes ?b) =
          fst ` set (nodes a) \<union> (if exposed_property opts pa then {fst pa} else {})"
    using ok by (simp add: add_property_nodes)
  with Cons.IH [OF rest] show ?case
    by (simp add: add_properties_step ok del: add_properties.simps(2)) auto
qed

lemma add_property_keys_agree:
  "keys_agree a \<Longrightarrow> keys_agree (snd (add_property eng opts idx a pa))"
  by (simp add: keys_agree_def add_property_nodes add_property_values)

lemma add_properties_keys_agree:
  "keys_agree a \<Longrightarrow> keys_agree (snd (add_properties eng opts idx dev a))"
  by (induction dev arbitrary: a)
     (simp_all add: add_properties_step add_property_keys_agree del: add_properties.simps(2))

lemma try_add_method_name:
  "try_add_method eng idx n av = Inr node \<Longrightarrow> meth_name node = n"
  by (auto simp: try_add_method_def split: sum.splits option.splits)


lemma registers_introspectable:
  "registers eng idx ma \<Longrightarrow> introspectable (snd ma)"
  by (auto simp: registers_def introspectable_def try_add_method_def split: sum.splits)

lemma add_method_fields [simp]:
  "running (add_method eng idx a ma) = running a"
  "nodes (add_method eng idx a ma) = nodes a"
  "property_values (add_method eng idx a ma) = property_values a"
  "stop_event (add_method eng idx a ma) = stop_event a"
  "update_thread (add_method eng idx a ma) = update_thread a"
  by (cases ma; simp add: add_method_def Let_def split: sum.split)+

lemma add_method_server:
  "(server (add_method eng idx a ma) = None) = (server a = None)"
  by (cases ma) (simp add: add_method_def Let_def split: sum.split)

lemma add_method_method_nodes:
  "server a \<noteq> None \<Longrightarrow>
   method_nodes (add_method eng idx a ma) =
     method_nodes a @ (if public_callable ma \<and> registers eng idx ma then [fst ma] else [])"
  by (cases ma)
     (auto simp: add_method_def Let_def method_nodes_def public_callable_def registers_def
        try_add_method_name split: sum.split)


lemma add_method_cell:
  "server a \<noteq> None \<Longrightarrow>
   map_option wrapper_method_name (server (add_method eng idx a ma)) = Some (Some (fst ma))"
  by (cases ma) (auto simp: add_method_def Let_def split: sum.split)

lemma add_methods_fields [simp]:
  "running (add_methods eng idx dev a) = running a"
  "nodes (add_methods eng idx dev a) = nodes a"
  "property_values (add_methods eng idx dev a) = property_values a"
  "stop_event (add_methods eng idx dev a) = stop_event a"
  "update_thread (add_methods eng idx dev a) = update_thread a"
  unfolding add_methods_def
  by (induction dev arbitrary: a; simp)+

lemma add_methods_server:
  "(server (add_methods eng idx dev a) = None) = (server a = None)"
  unfolding add_methods_def
  by (induction dev arbitrary: a) (simp_all add: add_method_server)

lemma add_methods_method_nodes:
  "server a \<noteq> None \<Longrightarrow>
   method_nodes (add_methods eng idx dev a) =
     method_nodes a @
     map fst (filter (\<lambda>ma. public_callable ma \<and> registers eng idx ma) dev)"
  unfolding add_methods_def
proof (induction dev arbitrary: a)
  case Nil
  then show ?case by simp
next
  case (Cons ma dev)
  from Cons.prems have "server (add_method eng idx a ma) \<noteq> None"
    by (simp add: add_method_server)
  then show ?case
    using Cons.prems by (simp add: Cons.IH add_method_method_nodes)
qed


lemma add_methods_cell:
  "server a \<noteq> None \<Longrightarrow> dev \<noteq> [] \<Longrightarrow>
   map_option wrapper_method_name (server (add_methods eng idx dev a)) =
     Some (Some (fst (last dev)))"
  unfolding add_methods_def
proof (induction dev rule: rev_induct)
  case Nil
  then show ?case by simp
next
  case (snoc ma dev)
  have "server (foldl (add_method eng idx) a dev) \<noteq> None"
    using snoc.prems(1) add_methods_server [of eng idx dev a] by (simp add: add_methods_def)
  then show ?case by (simp add: add_method_cell)
qed

lemma build_address_space_maps:
  "nodes (snd (build_address_space eng opts idx dev a)) =
     nodes (snd (add_properties eng opts idx dev a))"
  "property_values (snd (build_address_space eng opts idx dev a)) =
     property_values (snd (add_properties eng opts idx dev a))"
  "running (snd (build_address_space eng opts idx dev a)) = running a"
  "fst (build_address_space eng opts idx dev a) = fst (add_properties eng opts idx dev a)"
  by (cases "add_properties eng opts idx dev a"; cases "fst (add_properties eng opts idx dev a)";
      use add_properties_other(1) [of eng opts idx dev a] in
        \<open>auto simp: build_address_space_def\<close>)+

lemma build_address_space_keys_agree:
  "keys_agree a \<Longrightarrow> keys_agree (snd (build_address_space eng opts idx dev a))"
  using add_properties_keys_agree [of a eng opts idx dev]
  by (simp add: keys_agree_def build_address_space_maps)

lemma add_property_maps_cong:
  assumes "nodes a = nodes b" and "property_values a = property_values b"
  shows "nodes (snd (add_property eng opts idx a pa)) = nodes (snd (add_property eng opts idx b pa))
   \<and> property_values (snd (add_property eng opts idx a pa)) =
       property_values (snd (add_property eng opts idx b pa))
   \<and> fst (add_property eng opts idx a pa) = fst (add_property eng opts idx b pa)"
proof (cases pa)
  case (Pair p av)
  show ?thesis
    unfolding Pair add_property_def Let_def
    by (simp add: assms split: option.split)
qed

lemma add_properties_maps_cong:
  "nodes a = nodes b \<Longrightarrow> property_values a = property_values b \<Longrightarrow>
   nodes (snd (add_properties eng opts idx dev a)) = nodes (snd (add_properties eng opts idx dev b))
   \<and> property_values (snd (add_properties eng opts idx dev a)) =
       property_values (snd (add_properties eng opts idx dev b))
   \<and> fst (add_properties eng opts idx dev a) = fst (add_properties eng opts idx dev b)"
proof (induction dev arbitrary: a b)
  case Nil
  then show ?case by simp
next
  case (Cons pa dev)
  from add_property_maps_cong [OF Cons.prems, of eng opts idx pa]
  have n: "nodes (snd (add_property eng opts idx a pa)) = nodes (snd (add_property eng opts idx b pa))"
    and v: "property_values (snd (add_property eng opts idx a pa)) =
            property_values (snd (add_property eng opts idx b pa))"
    and f: "fst (add_property eng opts idx a pa) = fst (add_property eng opts idx b pa)"
    by blast+
  show ?case
  proof (cases "fst (add_property eng opts idx b pa) = None")
    case True
    with f have "fst (add_property eng opts idx a pa) = None" by simp
    with True Cons.IH [OF n v] show ?thesis
      by (simp add: add_properties_step del: add_properties.simps(2))
  next
    case False
    with f have fa: "fst (add_property eng opts idx a pa) \<noteq> None" by simp
    have "add_properties eng opts idx (pa # dev) a = add_property eng opts idx a pa"
      unfolding add_properties_step using fa by (rule if_not_P)
    moreover have "add_properties eng opts idx (pa # dev) b = add_property eng opts idx b pa"
      unfolding add_properties_step using False by (rule if_not_P)
    ultimately show ?thesis using n v f by simp
  qed
qed

lemma add_properties_ignores_server [simp]:
  "nodes (snd (add_properties eng opts idx dev (upd_server f a))) =
     nodes (snd (add_properties eng opts idx dev a))"
  "property_values (snd (add_properties eng opts idx dev (upd_server f a))) =
     property_values (snd (add_properties eng opts idx dev a))"
  "fst (add_properties eng opts idx dev (upd_server f a)) =
     fst (add_properties eng opts idx dev a)"
  "nodes (snd (add_properties eng opts idx dev (a\<lparr>server := s\<rparr>))) =
     nodes (snd (add_properties eng opts idx dev a))"
  "property_values (snd (add_properties eng opts idx dev (a\<lparr>server := s\<rparr>))) =
     property_values (snd (add_properties eng opts idx dev a))"
  "fst (add_properties eng opts idx dev (a\<lparr>server := s\<rparr>)) =
     fst (add_properties eng opts idx dev a)"
  using add_properties_maps_cong [of "upd_server f a" a eng opts idx dev]
        add_properties_maps_cong [of "a\<lparr>server := s\<rparr>" a eng opts idx dev]
  by simp_all

lemma start_server_maps:
  "nodes (snd (start_server e a)) =
     (if running a \<or> attr_option e = None \<or> interface e = None then nodes a
      else nodes (snd (add_properties (engine e) (options e) 0 (the (interface e)) a)))"
  "property_values (snd (start_server e a)) =
     (if running a \<or> attr_option e = None \<or> interface e = None then property_values a
      else property_values
             (snd (add_properties (engine e) (options e) 0 (the (interface e)) a)))"
  by (simp_all add: start_server_def Let_def new_server_def case_prod_unfold
        option.case_eq_if build_address_space_maps)

lemma start_server_keys_agree:
  "keys_agree a \<Longrightarrow> keys_agree (snd (start_server e a))"
  using add_properties_keys_agree [of a "engine e" "options e" 0 "the (interface e)"]
  by (simp add: keys_agree_def start_server_maps)

lemma stop_server_keys_agree:
  "keys_agree a \<Longrightarrow> keys_agree (stop_server a)"
  by (simp add: stop_server_def Let_def keys_agree_def)

lemma update_variable_nodes:
  "fst pn \<in> fst ` set (nodes a) \<Longrightarrow>
   fst ` set (nodes (update_variable e a pn)) = fst ` set (nodes a)"
  by (cases pn)
     (auto simp: update_variable_def Let_def dom_update split: sum.split option.split)

lemma update_variable_values:
  "fst pn \<in> fst ` set (property_values a) \<Longrightarrow>
   fst ` set (property_values (update_variable e a pn)) = fst ` set (property_values a)"
  by (cases pn)
     (auto simp: update_variable_def Let_def dom_update split: sum.split option.split)

lemma update_variables_fold_keys:
  "fst ` set ps \<subseteq> fst ` set (nodes a) \<Longrightarrow> keys_agree a \<Longrightarrow>
   fst ` set (nodes (foldl (update_variable e) a ps)) = fst ` set (nodes a)
   \<and> keys_agree (foldl (update_variable e) a ps)"
proof (induction ps arbitrary: a)
  case Nil
  then show ?case by simp
next
  case (Cons pn ps)
  let ?b = "update_variable e a pn"
  from Cons.prems have in_nodes: "fst pn \<in> fst ` set (nodes a)" by simp
  with Cons.prems(2) have in_values: "fst pn \<in> fst ` set (property_values a)"
    by (simp add: keys_agree_def)
  have n: "fst ` set (nodes ?b) = fst ` set (nodes a)"
    using in_nodes by (rule update_variable_nodes)
  have v: "fst ` set (property_values ?b) = fst ` set (property_values a)"
    using in_values by (rule update_variable_values)
  have k: "keys_agree ?b"
    using Cons.prems(2) n v by (simp add: keys_agree_def)
  have sub: "fst ` set ps \<subseteq> fst ` set (nodes ?b)"
    using Cons.prems(1) n by simp
  from Cons.IH [OF sub k] n show ?case by simp
qed

lemma poll_cycle_keys_agree:
  "keys_agree a \<Longrightarrow> keys_agree (poll_cycle e a)"
proof -
  assume k: "keys_agree a"
  then have k1: "keys_agree (emit [Acquire] a)" by (simp add: keys_agree_def)
  have "keys_agree (foldl (update_variable e) (emit [Acquire] a) (nodes (emit [Acquire] a)))"
    using update_variables_fold_keys [OF _ k1, of "nodes (emit [Acquire] a)" e] by simp
  then show ?thesis by (simp add: poll_cycle_def Let_def keys_agree_def)
qed

lemma call_method_keys_agree:
  "keys_agree a \<Longrightarrow> keys_agree (snd (call_method e m args a))"
  by (auto simp: call_method_def keys_agree_def split: option.split prod.split)

lemma write_callback_keys_agree:
  "keys_agree a \<Longrightarrow> keys_agree (snd (write_callback p v a))"
  by (simp add: write_callback_def keys_agree_def)

lemma reachable_keys_agree: "reachable a \<Longrightarrow> keys_agree a"
proof (induction rule: reachable.induct)
  case reach_init
  show ?case by (simp add: keys_agree_def init_def)
next
  case (reach_start a e)
  then show ?case by (simp add: start_server_keys_agree)
next
  case (reach_stop a)
  then show ?case by (simp add: stop_server_keys_agree)
next
  case (reach_poll a e)
  then show ?case by (simp add: poll_cycle_keys_agree)
next
  case (reach_call a e m args)
  then show ?case by (simp add: call_method_keys_agree)
next
  case (reach_write a p v)
  then show ?case by (simp add: write_callback_keys_agree)
qed

lemma cached_before_polled:
  assumes k: "keys_agree a" and split: "nodes a = ps @ (p, n) # rest"
  shows "map_of (property_values (foldl (update_variable e) (emit [Acquire] a) ps)) p \<noteq> None"
proof -
  let ?a1 = "emit [Acquire] a"
  have k1: "keys_agree ?a1" using k by (simp add: keys_agree_def)
  have sub: "fst ` set ps \<subseteq> fst ` set (nodes ?a1)" using split by auto
  let ?b = "foldl (update_variable e) ?a1 ps"
  from update_variables_fold_keys [OF sub k1, of e]
  have n: "fst ` set (nodes ?b) = fst ` set (nodes ?a1)" and kb: "keys_agree ?b"
    by blast+
  from kb have "fst ` set (property_values ?b) = fst ` set (nodes ?b)"
    unfolding keys_agree_def by (rule sym)
  also note n
  finally have v: "fst ` set (property_values ?b) = fst ` set (nodes a)" by simp
  have "p \<in> fst ` set (nodes a)" using split by force
  with v have "p \<in> fst ` set (property_values ?b)" by blast
  then show ?thesis by (simp add: map_of_eq_None_iff)
qed

lemma update_variable_trace:
  "\<exists>evs. trace (update_variable e a pn) = trace a @ evs
         \<and> Acquire \<notin> set evs \<and> Release \<notin> set evs"
  by (cases pn)
     (auto simp: update_variable_def Let_def split: sum.split option.split)

lemma update_variables_fold_trace:
  "\<exists>evs. trace (foldl (update_variable e) a ps) = trace a @ evs
         \<and> Acquire \<notin> set evs \<and> Release \<notin> set evs"
proof (induction ps arbitrary: a)
  case Nil
  show ?case by simp
next
  case (Cons pn ps)
  obtain evs1 where 1: "trace (update_variable e a pn) = trace a @ evs1"
    "Acquire \<notin> set evs1" "Release \<notin> set evs1"
    using update_variable_trace by blast
  obtain evs2 where 2:
    "trace (foldl (update_variable e) (update_variable e a pn) ps) =
       trace (update_variable e a pn) @ evs2"
    "Acquire \<notin> set evs2" "Release \<notin> set evs2"
    using Cons.IH by blast
  have "trace (foldl (update_variable e) a (pn # ps)) = trace a @ (evs1 @ evs2)"
    using 1 2 by simp
  moreover have "Acquire \<notin> set (evs1 @ evs2)" "Release \<notin> set (evs1 @ evs2)"
    using 1 2 by simp_all
  ultimately show ?case by blast
qed

lemma update_variable_fields [simp]:
  "running (update_variable e a pn) = running a"
  "stop_event (update_variable e a pn) = stop_event a"
  "server (update_variable e a pn) = server a"
  "update_thread (update_variable e a pn) = update_thread a"
  by (cases pn; simp add: update_variable_def Let_def split: sum.split option.split)+

lemma update_variables_fold_fields [simp]:
  "running (foldl (update_variable e) a ps) = running a"
  "stop_event (foldl (update_variable e) a ps) = stop_event a"
  "server (foldl (update_variable e) a ps) = server a"
  "update_thread (foldl (update_variable e) a ps) = update_thread a"
  by (induction ps arbitrary: a; simp)+

lemma poll_cycle_fields [simp]:
  "running (poll_cycle e a) = running a"
  "stop_event (poll_cycle e a) = stop_event a"
  "server (poll_cycle e a) = server a"
  "update_thread (poll_cycle e a) = update_thread a"
  by (simp_all add: poll_cycle_def Let_def)

lemma stop_server_clears:
  "running a \<Longrightarrow>
   nodes (stop_server a) = [] \<and> property_values (stop_server a) = []
   \<and> \<not> running (stop_server a)"
  by (simp add: stop_server_def Let_def)





subsection \<open>Example inputs\<close>

text \<open>
  An engine that accepts every call of the builder, and one whose node handles are
  coroutine objects that were never awaited, as the calls of an asynchronous API return
  them when the caller does not \<open>await\<close>: every method call on such a handle raises
  \<open>AttributeError\<close>.

  A device with the two data attributes and the two methods that the class
  \<open>ExampleOPCUADevice\<close> of \<open>lewis/examples/opcua_device\<close> defines itself, in the
  order of \<open>dir\<close>. \<open>example_env\<close> binds it under the default options, with neither
  \<open>_option\<close> nor \<open>_update_variables\<close> supplied by the base class, and with the
  accepting engine.
\<close>

definition accepting_engine :: engine where
  "accepting_engine =
     \<lparr>add_variable_error = (\<lambda>idx n v t. None), set_writeable_error = (\<lambda>n w. None),
      argument_error = (\<lambda>n. None), add_method_error = (\<lambda>idx n ins outs. None)\<rparr>"

definition unawaited_engine :: engine where
  "unawaited_engine =
     \<lparr>add_variable_error = (\<lambda>idx n v t. Some (AttributeError ''add_variable'')),
      set_writeable_error = (\<lambda>n w. Some (AttributeError ''set_writeable'')),
      argument_error = (\<lambda>n. None),
      add_method_error = (\<lambda>idx n ins outs. Some (AttributeError ''add_method''))\<rparr>"

definition example_device :: device where
  "example_device =
     [(''power'', Data (PBool False)),
      (''reset'', Callable (Inr []) (\<lambda>args. Inr (PBool True))),
      (''set_temperature'', Callable (Inr [''value'']) (\<lambda>args. Inr (PBool True))),
      (''temperature'', Data (PFloat 25))]"

definition example_env :: env where
  "example_env =
     \<lparr>options = default_options, interface = Some example_device, attr_option = None,
      attr_update_variables = False, py_ne = (\<lambda>x y. x \<noteq> y),
      set_value_error = (\<lambda>n v. None), engine = accepting_engine\<rparr>"

definition secure_options :: adapter_options where
  "secure_options =
     default_options\<lparr>security_mode := ''SignAndEncrypt'',
       security_policy := ''Basic256Sha256'', certificate := Some ''cert.der'',
       private_key := Some ''key.pem''\<rparr>"

subsection \<open>The lifecycle: start and stop\<close>

text \<open>
  C1. The specification says that \<open>start()\<close> enables security exactly when mode, policy,
  certificate and key are all given, and otherwise completes as an unsecured server. The
  code does neither: the first operand of the security condition reads \<open>self._option\<close>, an
  attribute the class never assigns. Where the base class does not supply it, \<open>start_server\<close>
  on a stopped adapter raises \<open>AttributeError\<close> for every configuration: the server object
  exists with its endpoint and name, no certificate, key or policy has been applied, it was
  not started, and the adapter is not running.
\<close>

theorem C1_start_server_raises:
  assumes "attr_option e = None" and "\<not> running a"
  shows "start_server e a =
           (Some (AttributeError ''_option''),
            a\<lparr>server := Some (new_server\<lparr>
                   endpoint := [Text ''opc.tcp://0.0.0.0:'', Num (port (options e))],
                   srv_name := server_name (options e)\<rparr>)\<rparr>)
         \<and> \<not> running (snd (start_server e a))
         \<and> map_option security_policies (server (snd (start_server e a))) = Some []
         \<and> map_option loaded_certificate (server (snd (start_server e a))) = Some None
         \<and> map_option started (server (snd (start_server e a))) = Some False"
  using assms by (simp add: start_server_def Let_def new_server_def)

theorem C1_start_server_raises_witness:
  "attr_option (example_env\<lparr>options := secure_options\<rparr>) = None
   \<and> \<not> running init
   \<and> fst (start_server (example_env\<lparr>options := secure_options\<rparr>) init)
       = Some (AttributeError ''_option'')
   \<and> map_option security_policies
        (server (snd (start_server (example_env\<lparr>options := secure_options\<rparr>) init))) = Some []
   \<and> fst (start_server example_env init) = Some (AttributeError ''_option'')"
proof -
  have h1: "attr_option (example_env\<lparr>options := secure_options\<rparr>) = None"
    by (simp add: example_env_def)
  have h2: "attr_option example_env = None"
    by (simp add: example_env_def)
  have h3: "\<not> running init" by (simp add: init_def)
  show ?thesis
    using C1_start_server_raises [OF h1 h3] C1_start_server_raises [OF h2 h3] h1 h3
    by (simp add: new_server_def)
qed

text \<open>
  C9. \<open>start_server\<close> on a running adapter returns at once and changes nothing: no
  node is created, no thread is started, nothing is logged. \<open>stop_server\<close> on an
  adapter that is not running, a new one included, returns at once and changes nothing.
\<close>

theorem C9_start_and_stop_are_idempotent:
  assumes "running a" and "\<not> running b"
  shows "start_server e a = (None, a) \<and> stop_server b = b"
  using assms by (simp add: start_server_def stop_server_def)

theorem C9_start_and_stop_are_idempotent_witness:
  "running (init\<lparr>running := True\<rparr>) \<and> \<not> running init
   \<and> start_server example_env (init\<lparr>running := True\<rparr>) = (None, init\<lparr>running := True\<rparr>)
   \<and> stop_server init = init"
proof -
  have h1: "running (init\<lparr>running := True\<rparr>)" by simp
  have h2: "\<not> running init" by (simp add: init_def)
  show ?thesis
    using C9_start_and_stop_are_idempotent [OF h1 h2, of example_env] h1 h2 by simp
qed

subsection \<open>The polling loop and the lock\<close>

text \<open>
  C5. The specification says that in every cycle the device lock is released before the
  wait for the poll interval begins. In the code the wait is the last statement inside the
  \<open>with self.device_lock\<close> block: the events of a cycle are the acquisition, then
  updates and warnings only, then the wait, bounded by \<open>update_interval\<close>, and only then
  the release. The lock is held throughout the wait.
\<close>

theorem C5_wait_inside_the_lock: "\<exists>evs. trace (poll_cycle e a) =
          trace a @ [Acquire] @ evs @ [Wait (update_interval (options e)), Release]
        \<and> Acquire \<notin> set evs \<and> Release \<notin> set evs"
proof -
  obtain evs where
    "trace (foldl (update_variable e) (emit [Acquire] a) (nodes (emit [Acquire] a))) =
       trace (emit [Acquire] a) @ evs"
    "Acquire \<notin> set evs" "Release \<notin> set evs"
    using update_variables_fold_trace by blast
  then have "trace (poll_cycle e a) =
          trace a @ [Acquire] @ evs @ [Wait (update_interval (options e)), Release]"
    by (simp add: poll_cycle_def Let_def)
  then show ?thesis using \<open>Acquire \<notin> set evs\<close> \<open>Release \<notin> set evs\<close> by blast
qed

subsection \<open>The builder and the call wrapper\<close>

text \<open>
  An adapter whose server has just been created, as \<open>start_server\<close> has it when it calls
  the builders; the example device built on it with the accepting engine; a device with two
  methods that take no argument; and a device one of whose callables has no signature that
  \<open>inspect.signature\<close> can find.
\<close>

definition fresh_server_adapter :: adapter where
  "fresh_server_adapter = init\<lparr>server := Some new_server\<rparr>"

definition example_built :: adapter where
  "example_built =
     add_methods accepting_engine 0 example_device
       (snd (add_properties accepting_engine default_options 0 example_device
               fresh_server_adapter))"

definition start_stop_device :: device where
  "start_stop_device =
     [(''start'', Callable (Inr []) (\<lambda>args. Inr PNone)),
      (''stop'', Callable (Inr []) (\<lambda>args. Inr (PBool True)))]"

definition opaque_device :: device where
  "opaque_device =
     [(''broken'', Callable (Inl (ValueError ''no signature found'')) (\<lambda>args. Inr PNone)),
      (''reset'', Callable (Inr []) (\<lambda>args. Inr (PBool True))),
      (''temperature'', Data (PFloat 25))]"

lemma example_built_eval:
  "method_nodes example_built = [''reset'', ''set_temperature'']"
  "map fst (nodes example_built) = [''power'', ''temperature'']"
  "map fst (property_values example_built) = [''power'', ''temperature'']"
  "map_option wrapper_method_name (server example_built) = Some (Some ''temperature'')"
  by (simp_all add: example_built_def fresh_server_adapter_def example_device_def
      add_methods_def add_method_def add_property_def try_add_method_def accepting_engine_def
      Let_def init_def new_server_def method_nodes_def default_options_def upd_server_def
      emit_def)

text \<open>
  C4. The specification says that invoking a method node calls the device callable the node
  was registered for. Every wrapper reads the loop variable \<open>method_name\<close> of
  \<open>_add_methods\<close> when it runs, and after the loop that variable holds the last name of
  \<open>dir(self.interface)\<close> (\<open>add_methods_cell\<close>). For the example device that name is
  \<open>temperature\<close>, a float: invoking the node \<open>reset\<close> raises \<open>TypeError\<close> and
  \<open>reset\<close> is never called. For the device with the methods \<open>start\<close> and \<open>stop\<close>,
  invoking the node \<open>start\<close> calls \<open>stop\<close> and returns its result. The lock is
  acquired and released around the call, and a result that is not \<open>None\<close> comes back as a
  one-element list.
\<close>

theorem C4_wrapper_calls_the_last_name:
  "method_nodes example_built = [''reset'', ''set_temperature'']
   \<and> call_method example_env ''reset'' [] example_built
       = (Inl (TypeError ''object is not callable''), emit [Acquire, Release] example_built)
   \<and> method_nodes (add_methods accepting_engine 0 start_stop_device fresh_server_adapter) = [''start'', ''stop'']
   \<and> call_method (example_env\<lparr>interface := Some start_stop_device\<rparr>) ''start'' []
         (add_methods accepting_engine 0 start_stop_device fresh_server_adapter)
       = (Inr [PBool True],
          emit [Acquire, Call ''stop'' [], Release]
            (add_methods accepting_engine 0 start_stop_device fresh_server_adapter))"
  by (simp add: example_built_def fresh_server_adapter_def example_device_def
      start_stop_device_def example_env_def call_method_def method_wrapper_def getattr_def
      add_methods_def add_method_def add_property_def try_add_method_def accepting_engine_def
      Let_def init_def new_server_def method_nodes_def default_options_def upd_server_def
      emit_def)




subsection \<open>The node sets the builder produces\<close>

text \<open>
  The method nodes after \<open>_add_properties\<close> and \<open>_add_methods\<close>. A name all of whose
  attributes have no readable signature is never among them, whatever the engine does.
\<close>

lemma build_address_space_methods:
  "server a \<noteq> None \<Longrightarrow>
   method_nodes (snd (build_address_space eng opts idx dev a)) =
     method_nodes a @
     (if fst (build_address_space eng opts idx dev a) = None
      then map fst (filter (\<lambda>ma. public_callable ma \<and> registers eng idx ma) dev) else [])"
proof -
  assume s: "server a \<noteq> None"
  obtain r a' where p: "add_properties eng opts idx dev a = (r, a')"
    by (cases "add_properties eng opts idx dev a")
  have m: "method_nodes a' = method_nodes a"
    using add_properties_other(5) [of eng opts idx dev a] p by simp
  have s': "server a' \<noteq> None"
    using add_properties_server [of eng opts idx dev a] p s by simp
  show ?thesis
  proof (cases r)
    case None
    with p m add_methods_method_nodes [OF s', of eng idx dev] show ?thesis
      by (simp add: build_address_space_def)
  next
    case (Some err)
    with p m show ?thesis by (simp add: build_address_space_def)
  qed
qed

lemma unreadable_never_registered:
  assumes "server a \<noteq> None" and "n \<notin> set (method_nodes a)"
    and "\<And>av. (n, av) \<in> set dev \<Longrightarrow> \<not> introspectable av"
  shows "n \<notin> set (method_nodes (snd (build_address_space eng opts idx dev a)))"
proof -
  have "n \<notin> fst ` set (filter (\<lambda>ma. public_callable ma \<and> registers eng idx ma) dev)"
    using assms(3) registers_introspectable [of eng idx] by force
  then show ?thesis
    using assms(2) by (simp add: build_address_space_methods [OF assms(1)])
qed

text \<open>
  C3, as amended. The builder, that is \<open>_add_properties\<close> followed by \<open>_add_methods\<close>
  on an adapter that has a server, only ever adds to the keys of the property-node map
  attributes of the device that are not callable, not underscore-prefixed and not in
  \<open>exclude_properties\<close>. When it ends without an exception, the keys it has added are
  exactly those attributes, and the method nodes it has added are exactly the callable,
  non-underscore-prefixed attributes whose signature \<open>inspect.signature\<close> can read and
  whose \<open>try\<close> block has ended without an exception.
\<close>

theorem C3_builder_node_sets:
  assumes "server a \<noteq> None"
  shows "fst ` set (nodes (snd (build_address_space eng opts idx dev a))) \<subseteq>
           fst ` set (nodes a) \<union>
           {n. \<exists>av. (n, av) \<in> set dev \<and> \<not> callable av \<and> \<not> startswith_underscore n
                     \<and> n \<notin> set (exclude_properties opts)}
         \<and> (fst (build_address_space eng opts idx dev a) = None \<longrightarrow>
              fst ` set (nodes (snd (build_address_space eng opts idx dev a))) =
                fst ` set (nodes a) \<union>
                {n. \<exists>av. (n, av) \<in> set dev \<and> \<not> callable av \<and> \<not> startswith_underscore n
                          \<and> n \<notin> set (exclude_properties opts)}
              \<and> set (method_nodes (snd (build_address_space eng opts idx dev a))) =
                set (method_nodes a) \<union>
                {n. \<exists>av. (n, av) \<in> set dev \<and> callable av \<and> \<not> startswith_underscore n
                          \<and> introspectable av \<and> registers eng idx (n, av)})"
proof -
  have p: "fst ` {pa \<in> set dev. exposed_property opts pa} =
           {n. \<exists>av. (n, av) \<in> set dev \<and> \<not> callable av \<and> \<not> startswith_underscore n
                     \<and> n \<notin> set (exclude_properties opts)}"
    by (force simp: exposed_property_def)
  have m: "set (map fst (filter (\<lambda>ma. public_callable ma \<and> registers eng idx ma) dev)) =
           {n. \<exists>av. (n, av) \<in> set dev \<and> callable av \<and> \<not> startswith_underscore n
                     \<and> introspectable av \<and> registers eng idx (n, av)}"
    using registers_introspectable [of eng idx] by (force simp: public_callable_def)
  have 1: "fst ` set (nodes (snd (build_address_space eng opts idx dev a))) \<subseteq>
           fst ` set (nodes a) \<union> fst ` {pa \<in> set dev. exposed_property opts pa}"
    using add_properties_nodes_subset [of eng opts idx dev a]
    by (simp add: build_address_space_maps)
  have 2: "fst ` set (nodes (snd (build_address_space eng opts idx dev a))) =
           fst ` set (nodes a) \<union> fst ` {pa \<in> set dev. exposed_property opts pa}"
    if "fst (build_address_space eng opts idx dev a) = None"
    using that add_properties_nodes_complete [of eng opts idx dev a]
    by (simp add: build_address_space_maps)
  have 3: "set (method_nodes (snd (build_address_space eng opts idx dev a))) =
           set (method_nodes a) \<union>
           set (map fst (filter (\<lambda>ma. public_callable ma \<and> registers eng idx ma) dev))"
    if "fst (build_address_space eng opts idx dev a) = None"
    using that by (simp add: build_address_space_methods [OF assms])
  from 1 2 3 show ?thesis unfolding p m by blast
qed

theorem C3_builder_node_sets_witness:
  "server fresh_server_adapter \<noteq> None
   \<and> fst (build_address_space accepting_engine default_options 0 opaque_device
            fresh_server_adapter) = None
   \<and> ''temperature'' \<in> fst ` set (nodes (snd (build_address_space accepting_engine
            default_options 0 opaque_device fresh_server_adapter)))
   \<and> ''reset'' \<in> set (method_nodes (snd (build_address_space accepting_engine
            default_options 0 opaque_device fresh_server_adapter)))
   \<and> ''broken'' \<notin> set (method_nodes (snd (build_address_space accepting_engine
            default_options 0 opaque_device fresh_server_adapter)))
   \<and> fst (build_address_space unawaited_engine default_options 0 start_stop_device
            fresh_server_adapter) = None
   \<and> ''start'' \<notin> set (method_nodes (snd (build_address_space unawaited_engine
            default_options 0 start_stop_device fresh_server_adapter)))"
  (is "_ \<and> ?ok = None \<and> _ \<in> ?N \<and> _ \<in> ?M \<and> _ \<notin> ?M \<and> ?ok' = None \<and> _ \<notin> ?M'")
proof -
  have h: "server fresh_server_adapter \<noteq> None"
    by (simp add: fresh_server_adapter_def)
  have n0: "nodes fresh_server_adapter = []" "method_nodes fresh_server_adapter = []"
    by (simp_all add: fresh_server_adapter_def init_def method_nodes_def new_server_def)
  have ok: "?ok = None"
    by (simp add: build_address_space_maps opaque_device_def add_property_def
          accepting_engine_def default_options_def Let_def)
  have ok': "?ok' = None"
    by (simp add: build_address_space_maps start_stop_device_def add_property_def)
  note t = C3_builder_node_sets [OF h, of accepting_engine default_options 0 opaque_device,
             unfolded n0, THEN conjunct2, rule_format, OF ok]
  note t' = C3_builder_node_sets [OF h, of unawaited_engine default_options 0 start_stop_device,
             unfolded n0, THEN conjunct2, rule_format, OF ok']
  have "''temperature'' \<in> {n. \<exists>av. (n, av) \<in> set opaque_device \<and> \<not> callable av
            \<and> \<not> startswith_underscore n \<and> n \<notin> set (exclude_properties default_options)}"
    by (auto simp: opaque_device_def default_options_def)
  with t have 1: "''temperature'' \<in> ?N" by simp
  have "''reset'' \<in> {n. \<exists>av. (n, av) \<in> set opaque_device \<and> callable av
            \<and> \<not> startswith_underscore n \<and> introspectable av
            \<and> registers accepting_engine 0 (n, av)}"
    by (auto simp: opaque_device_def introspectable_def registers_def try_add_method_def
          accepting_engine_def)
  with t have 2: "''reset'' \<in> ?M" by simp
  have "''broken'' \<notin> {n. \<exists>av. (n, av) \<in> set opaque_device \<and> callable av
            \<and> \<not> startswith_underscore n \<and> introspectable av
            \<and> registers accepting_engine 0 (n, av)}"
    by (auto simp: opaque_device_def introspectable_def)
  with t have 3: "''broken'' \<notin> ?M" by simp
  have "''start'' \<notin> {n. \<exists>av. (n, av) \<in> set start_stop_device \<and> callable av
            \<and> \<not> startswith_underscore n \<and> introspectable av
            \<and> registers unawaited_engine 0 (n, av)}"
    by (auto simp: start_stop_device_def registers_def try_add_method_def unawaited_engine_def)
  with t' have 4: "''start'' \<notin> ?M'" by simp
  from h ok 1 2 3 ok' 4 show ?thesis by blast
qed

text \<open>
  C3, as the specification states it, fails for a device with a public callable
  \<open>broken\<close> whose signature cannot be read: the specification expects a method node
  for every callable, non-underscore-prefixed attribute, and the builder adds none for
  \<open>broken\<close>, with the engine that accepts every call and with the one that raises on
  every call alike (\<open>unreadable_never_registered\<close> shows it for every engine).
\<close>

theorem C3_counterexample:
  "set (method_nodes (snd (build_address_space accepting_engine default_options 0
          opaque_device fresh_server_adapter)))
     \<noteq> {n. \<exists>av. (n, av) \<in> set opaque_device \<and> callable av \<and> \<not> startswith_underscore n}
   \<and> set (method_nodes (snd (build_address_space unawaited_engine default_options 0
          opaque_device fresh_server_adapter)))
     \<noteq> {n. \<exists>av. (n, av) \<in> set opaque_device \<and> callable av \<and> \<not> startswith_underscore n}"
  (is "?A \<noteq> ?C \<and> ?U \<noteq> ?C")
proof -
  have h: "server fresh_server_adapter \<noteq> None"
    by (simp add: fresh_server_adapter_def)
  have n0: "''broken'' \<notin> set (method_nodes fresh_server_adapter)"
    by (simp add: fresh_server_adapter_def init_def method_nodes_def new_server_def)
  have u: "\<not> introspectable av" if "(''broken'', av) \<in> set opaque_device" for av
    using that by (auto simp: opaque_device_def introspectable_def)
  have a: "''broken'' \<notin> ?A" using h n0 u by (rule unreadable_never_registered)
  have b: "''broken'' \<notin> ?U" using h n0 u by (rule unreadable_never_registered)
  have c: "''broken'' \<in> ?C" by (auto simp: opaque_device_def)
  from a c have "?A \<noteq> ?C" by blast
  moreover from b c have "?U \<noteq> ?C" by blast
  ultimately show ?thesis by blast
qed

subsection \<open>Stopping and starting again\<close>

text \<open>
  C8. The specification says that after \<open>stop()\<close> both maps are empty and a subsequent
  \<open>start()\<close> rebuilds them from the device's current state. \<open>stop_server\<close> on a
  running adapter does clear both maps (\<open>stop_server_clears\<close>). But the start rebuilds
  nothing: on a new adapter bound to the example device, which has the data attribute
  \<open>temperature\<close>, \<open>stop_server\<close> changes nothing and the following
  \<open>start_server\<close> raises \<open>AttributeError\<close>, leaving both maps empty and the adapter
  stopped.
\<close>

theorem C8_restart_raises:
  "stop_server init = init
   \<and> (''temperature'', Data (PFloat 25)) \<in> set example_device
   \<and> fst (start_server example_env (stop_server init)) = Some (AttributeError ''_option'')
   \<and> nodes (snd (start_server example_env (stop_server init))) = []
   \<and> property_values (snd (start_server example_env (stop_server init))) = []
   \<and> \<not> running (snd (start_server example_env (stop_server init)))"
  by (simp add: stop_server_def start_server_def Let_def example_env_def init_def
        example_device_def)

subsection \<open>The property-node map and the value cache\<close>

text \<open>
  A state in which the maps are populated: \<open>start_server\<close> on a new adapter, in an
  environment where \<open>self._option\<close> resolves to the options.
\<close>

definition example_started :: adapter where
  "example_started =
     snd (start_server (example_env\<lparr>attr_option := Some default_options\<rparr>) init)"

lemma example_started_nodes:
  "nodes example_started =
     [(''power'', \<lparr>var_idx = 0, var_name = ''power'', var_value = PBool False,
                   var_type = Boolean, var_writeable = True,
                   set_value_callback = Some ''power''\<rparr>)] @
     (''temperature'', \<lparr>var_idx = 0, var_name = ''temperature'', var_value = PFloat 25,
                   var_type = Double, var_writeable = True,
                   set_value_callback = Some ''temperature''\<rparr>) # []"
  by (simp add: example_started_def start_server_maps example_env_def init_def
        example_device_def add_property_def accepting_engine_def default_options_def
        get_ua_data_type_def Let_def)

text \<open>
  C10. In every state the adapter can get into, the property-node map and the value cache
  have the same keys. Consequently, when a cycle of the polling loop comes to the item
  \<open>(p, n)\<close> of \<open>self._nodes.items()\<close>, having handled the items \<open>ps\<close> before
  it, \<open>p\<close> is a key of the cache: the test \<open>property not in self._property_values\<close>
  is false.
\<close>

theorem C10_nodes_and_cache_share_keys:
  assumes "reachable a"
  shows "fst ` set (nodes a) = fst ` set (property_values a)
         \<and> (\<forall>ps p n rest. nodes a = ps @ (p, n) # rest \<longrightarrow>
               map_of (property_values (foldl (update_variable e) (emit [Acquire] a) ps)) p
                 \<noteq> None)"
proof -
  have k: "keys_agree a" using assms by (rule reachable_keys_agree)
  then have "fst ` set (nodes a) = fst ` set (property_values a)"
    by (simp add: keys_agree_def)
  moreover have "\<forall>ps p n rest. nodes a = ps @ (p, n) # rest \<longrightarrow>
               map_of (property_values (foldl (update_variable e) (emit [Acquire] a) ps)) p
                 \<noteq> None"
    using cached_before_polled [OF k] by blast
  ultimately show ?thesis by blast
qed

theorem C10_nodes_and_cache_share_keys_witness:
  "reachable example_started
   \<and> map fst (nodes example_started) = [''power'', ''temperature'']
   \<and> fst ` set (nodes example_started) = fst ` set (property_values example_started)
   \<and> map_of (property_values
        (foldl (update_variable (example_env\<lparr>interface := Some [(''power'', Data (PBool True))]\<rparr>))
           (emit [Acquire] example_started)
           [(''power'', \<lparr>var_idx = 0, var_name = ''power'', var_value = PBool False,
                   var_type = Boolean, var_writeable = True,
                   set_value_callback = Some ''power''\<rparr>)])) ''temperature'' \<noteq> None"
proof -
  have r: "reachable example_started"
    unfolding example_started_def by (rule reach_start [OF reach_init])
  note t = C10_nodes_and_cache_share_keys [OF r,
      of "example_env\<lparr>interface := Some [(''power'', Data (PBool True))]\<rparr>"]
  from t have 1: "fst ` set (nodes example_started) = fst ` set (property_values example_started)"
    by (rule conjunct1)
  from t example_started_nodes have 2: "map_of (property_values
        (foldl (update_variable (example_env\<lparr>interface := Some [(''power'', Data (PBool True))]\<rparr>))
           (emit [Acquire] example_started)
           [(''power'', \<lparr>var_idx = 0, var_name = ''power'', var_value = PBool False,
                   var_type = Boolean, var_writeable = True,
                   set_value_callback = Some ''power''\<rparr>)])) ''temperature'' \<noteq> None"
    by blast
  have 3: "map fst (nodes example_started) = [''power'', ''temperature'']"
    by (simp add: example_started_nodes)
  from r 1 2 3 show ?thesis by blast
qed

end
